theory Spec2Isabelle
  imports Complex_Main "HOL-Library.AList"
begin

section \<open>Python values shared by both modules\<close>

text \<open>
  Both modules wrap their calls to the outside world (ping3, plyer, winsound, smtplib,
  the file system, the registered callbacks) in \<^verbatim>\<open>try: ... except Exception as e:\<close>.
  An exception is a value; a statement either returns or raises, and it leaves a state
  behind in both cases, since Python does not undo the mutations made before a raise.
  Exceptions that are not subclasses of \<^verbatim>\<open>Exception\<close> (KeyboardInterrupt, SystemExit)
  are outside the model.
\<close>

datatype py_exception = KeyError string | OtherException string

datatype completion = Returned | Raised py_exception

type_synonym 's stmt = "'s \<Rightarrow> completion \<times> 's"

text \<open>\<^verbatim>\<open>a; b\<close>: the second statement runs only when the first returned.\<close>

definition seq :: "'s stmt \<Rightarrow> 's stmt \<Rightarrow> 's stmt" where
  "seq f g s = (case f s of (Returned, s') \<Rightarrow> g s' | (Raised e, s') \<Rightarrow> (Raised e, s'))"

text \<open>\<^verbatim>\<open>try: body  except Exception as e: handler(e)\<close>.\<close>

definition try_except :: "'s stmt \<Rightarrow> (py_exception \<Rightarrow> 's stmt) \<Rightarrow> 's stmt" where
  "try_except body handler s =
     (case body s of (Returned, s') \<Rightarrow> (Returned, s') | (Raised e, s') \<Rightarrow> handler e s')"

definition skip :: "'s stmt" where
  "skip s = (Returned, s)"

text \<open>
  \<^verbatim>\<open>xs[i:]\<close> for a Python list: a negative start counts from the end and is clamped
  at the beginning of the list, a start beyond the end gives the empty list.
\<close>

definition py_slice_from :: "'a list \<Rightarrow> int \<Rightarrow> 'a list" where
  "py_slice_from xs i =
     (let n = int (length xs);
          start = (if i < 0 then max (n + i) 0 else min i n)
      in drop (nat start) xs)"

section \<open>alert\_manager.py\<close>

subsection \<open>AlertConfig and the alert records\<close>

text \<open>
  \<^verbatim>\<open>email_recipients: List[str] = None\<close> is an optional list; the code only tests its
  truthiness, which is false for \<^verbatim>\<open>None\<close> and for the empty list.
\<close>

record AlertConfig =
  email_enabled :: bool
  email_smtp_server :: string
  email_smtp_port :: int
  email_username :: string
  email_password :: string
  email_recipients :: "string list option"
  desktop_notification :: bool
  sound_alert :: bool
  sound_file :: string

text \<open>
  An alert is the dict literal of \<^verbatim>\<open>send_alert\<close>, with its keys in insertion order:
  \<^verbatim>\<open>{"timestamp": ..., "ip": ..., "message": ..., "type": ...}\<close>.
\<close>

type_synonym alert_data = "(string \<times> string) list"

text \<open>
  What the manager does to the outside world, in the order it does it. The constant
  parts of the Chinese message texts are left out: an effect carries the values that
  the f-string interpolates.
\<close>

datatype smtp_step = Connect | Starttls | Login | Send_message | Quit

datatype alert_effect =
    Desktop_notify string string
  | Play_sound string
  | Beep int int
  | Smtp smtp_step
  | Log_info string
  | Log_error string py_exception

record AlertManager =
  config :: AlertConfig
  alert_history :: "alert_data list"
  effects :: "alert_effect list"

text \<open>
  The outside world as one call of \<^verbatim>\<open>send_alert\<close> meets it: the clock, the file
  system test of the sound file, and whether each external call returns or raises.
\<close>

record alert_env =
  now_isoformat :: string
  notify_outcome :: completion
  path_exists :: "string \<Rightarrow> bool"
  play_sound_outcome :: completion
  beep_outcome :: completion
  smtp_outcome :: "smtp_step \<Rightarrow> completion"

text \<open>An external call: it is recorded, then it returns or raises as the world decides.\<close>

definition call :: "alert_effect \<Rightarrow> completion \<Rightarrow> AlertManager stmt" where
  "call eff outcome m = (outcome, m\<lparr>effects := effects m @ [eff]\<rparr>)"

text \<open>\<^verbatim>\<open>self.logger.info\<close> and \<^verbatim>\<open>self.logger.error\<close>: they return.\<close>

definition logger :: "alert_effect \<Rightarrow> AlertManager stmt" where
  "logger eff = call eff Returned"

subsection \<open>send\_alert and \_send\_email\_alert\<close>

text \<open>
  \<^verbatim>\<open>with smtplib.SMTP(server, port) as server:\<close> the body runs when the connection was
  made; leaving the block sends QUIT whether the body returned or raised, and an
  exception of QUIT replaces the body's.
\<close>

definition with_smtp :: "alert_env \<Rightarrow> AlertManager stmt \<Rightarrow> AlertManager stmt" where
  "with_smtp env body =
     seq (call (Smtp Connect) (smtp_outcome env Connect))
       (\<lambda>m. case body m of
          (Returned, m') \<Rightarrow> call (Smtp Quit) (smtp_outcome env Quit) m'
        | (Raised e, m') \<Rightarrow>
            (case call (Smtp Quit) (smtp_outcome env Quit) m' of
               (Returned, m'') \<Rightarrow> (Raised e, m'')
             | (Raised e', m'') \<Rightarrow> (Raised e', m'')))"

definition send_email_alert :: "alert_env \<Rightarrow> string \<Rightarrow> string \<Rightarrow> AlertManager stmt" where
  "send_email_alert env a message =
     try_except
       (seq
          (with_smtp env
             (seq (call (Smtp Starttls) (smtp_outcome env Starttls))
                (seq (call (Smtp Login) (smtp_outcome env Login))
                   (call (Smtp Send_message) (smtp_outcome env Send_message)))))
          (logger (Log_info a)))
       (\<lambda>e. logger (Log_error ''email'' e))"

definition truthy :: "string list option \<Rightarrow> bool" where
  "truthy r = (case r of None \<Rightarrow> False | Some xs \<Rightarrow> xs \<noteq> [])"

definition send_alert ::
  "alert_env \<Rightarrow> string \<Rightarrow> string \<Rightarrow> string \<Rightarrow> AlertManager stmt" where
  "send_alert env a message alert_type =
     seq
       (\<lambda>m. (Returned,
          m\<lparr>alert_history := alert_history m @
               [[(''timestamp'', now_isoformat env), (''ip'', a),
                 (''message'', message), (''type'', alert_type)]]\<rparr>))
       (seq
          (\<lambda>m. if desktop_notification (config m)
                then try_except
                       (call (Desktop_notify a message) (notify_outcome env))
                       (\<lambda>e. logger (Log_error ''desktop'' e)) m
                else skip m)
          (seq
             (\<lambda>m. if sound_alert (config m)
                   then try_except
                          (if sound_file (config m) \<noteq> [] \<and> path_exists env (sound_file (config m))
                           then call (Play_sound (sound_file (config m))) (play_sound_outcome env)
                           else call (Beep 1000 1000) (beep_outcome env))
                          (\<lambda>e. logger (Log_error ''sound'' e)) m
                   else skip m)
             (\<lambda>m. if email_enabled (config m) \<and> truthy (email_recipients (config m))
                   then send_email_alert env a message m
                   else skip m)))"

subsection \<open>The history: get, clear, save, load\<close>

definition get_alert_history :: "AlertManager \<Rightarrow> int \<Rightarrow> alert_data list" where
  "get_alert_history m limit = py_slice_from (alert_history m) (- limit)"

definition clear_alert_history :: "AlertManager \<Rightarrow> AlertManager" where
  "clear_alert_history m = m\<lparr>alert_history := []\<rparr>"

text \<open>
  The file system and the json module are not part of the repository. The file system
  is a table of file contents together with the outcome of opening a path for writing
  and for reading; \<^verbatim>\<open>os.path.exists\<close> asks whether the table has the path. The two
  json functions are parameters: \<^verbatim>\<open>json.dump\<close> writes some text and then returns or
  raises, \<^verbatim>\<open>json.load\<close> gives a history or raises.
\<close>

record file_system =
  files :: "string \<Rightarrow> string option"
  open_write_outcome :: "string \<Rightarrow> completion"
  open_read_outcome :: "string \<Rightarrow> completion"

record json_module =
  json_dump :: "alert_data list \<Rightarrow> completion \<times> string"
  json_load :: "string \<Rightarrow> py_exception + alert_data list"

type_synonym persist_state = "AlertManager \<times> file_system"

definition manager_does :: "AlertManager stmt \<Rightarrow> persist_state stmt" where
  "manager_does f s = (case f (fst s) of (c, m') \<Rightarrow> (c, (m', snd s)))"

text \<open>\<^verbatim>\<open>open(filepath, "w", encoding="utf-8")\<close> truncates the file when it succeeds.\<close>

definition open_w :: "string \<Rightarrow> persist_state stmt" where
  "open_w filepath s =
     (case open_write_outcome (snd s) filepath of
        Raised e \<Rightarrow> (Raised e, s)
      | Returned \<Rightarrow> (Returned, (fst s, (snd s)\<lparr>files := (files (snd s))(filepath \<mapsto> [])\<rparr>)))"

definition dump_history :: "json_module \<Rightarrow> string \<Rightarrow> persist_state stmt" where
  "dump_history js filepath s =
     (case json_dump js (alert_history (fst s)) of
        (c, written) \<Rightarrow> (c, (fst s, (snd s)\<lparr>files := (files (snd s))(filepath \<mapsto> written)\<rparr>)))"

definition save_alert_history :: "json_module \<Rightarrow> string \<Rightarrow> persist_state stmt" where
  "save_alert_history js filepath =
     try_except
       (seq (open_w filepath)
          (seq (dump_history js filepath)
             (manager_does (logger (Log_info filepath)))))
       (\<lambda>e. manager_does (logger (Log_error ''save'' e)))"

definition read_history :: "json_module \<Rightarrow> string \<Rightarrow> string \<Rightarrow> persist_state stmt" where
  "read_history js filepath content s =
     (case open_read_outcome (snd s) filepath of
        Raised e \<Rightarrow> (Raised e, s)
      | Returned \<Rightarrow>
          (case json_load js content of
             Inl e \<Rightarrow> (Raised e, s)
           | Inr h \<Rightarrow> (Returned, ((fst s)\<lparr>alert_history := h\<rparr>, snd s))))"

definition load_alert_history :: "json_module \<Rightarrow> string \<Rightarrow> persist_state stmt" where
  "load_alert_history js filepath =
     try_except
       (\<lambda>s. case files (snd s) filepath of
               Some content \<Rightarrow>
                 seq (read_history js filepath content)
                   (manager_does (logger (Log_info filepath))) s
             | None \<Rightarrow> skip s)
       (\<lambda>e. manager_does (logger (Log_error ''load'' e)))"

text \<open>
  The design document's reading of the history query, \<open>recent(limit)\<close>: the last
  \<open>limit\<close> records, the whole sequence when it is shorter.
\<close>

definition recent_spec :: "nat \<Rightarrow> 'a list \<Rightarrow> 'a list" where
  "recent_spec limit xs = drop (length xs - limit) xs"

section \<open>ping\_monitor.py\<close>

subsection \<open>IPStatus and PingMonitor\<close>

text \<open>
  A \<^verbatim>\<open>datetime\<close> is a reading of the clock. \<^verbatim>\<open>response_time\<close> is a Python float; it
  is modelled by a real number, which keeps the sign and the zero of the products the
  code computes.
\<close>

type_synonym datetime = nat

record IPStatus =
  ip :: string
  is_online :: bool
  response_time :: real
  last_success :: "datetime option"
  last_failure :: "datetime option"
  consecutive_failures :: int
  group :: string

text \<open>
  \<^verbatim>\<open>ping3.ping(ip, timeout=...)\<close> gives the round trip in seconds, gives \<^verbatim>\<open>None\<close>, or
  raises.
\<close>

datatype ping_result = Reply real | No_reply | Ping_raises py_exception

text \<open>
  A registered callback is called with the address and the status and returns or
  raises. The callbacks of the repository (the window's \<^verbatim>\<open>on_status_update\<close>) read the
  status and the monitor and write neither.
\<close>

type_synonym callback = "string \<Rightarrow> IPStatus \<Rightarrow> completion"

datatype monitor_effect =
    Ping_sent string real
  | Callback_called nat string IPStatus
  | Log_added string string
  | Log_removed string
  | Log_failures string int
  | Log_ping_error string py_exception
  | Slept real

text \<open>
  \<^verbatim>\<open>monitored_ips\<close> is a dict: an association list in insertion order. Assigning to a
  new key appends, assigning to a key it has replaces the value where it stands.
  \<^verbatim>\<open>trace\<close> is not a field of the class: it records the calls the monitor makes to
  ping3, to the callbacks, to the logger and to \<^verbatim>\<open>time.sleep\<close>, in order. The thread,
  the stop event and the unused queue are not fields of the model.
\<close>

record PingMonitor =
  timeout :: real
  interval :: real
  failure_threshold :: int
  monitored_ips :: "(string \<times> IPStatus) list"
  callbacks :: "callback list"
  trace :: "monitor_effect list"

definition PingMonitor_init :: "real \<Rightarrow> real \<Rightarrow> int \<Rightarrow> PingMonitor" where
  "PingMonitor_init t i f =
     \<lparr>timeout = t, interval = i, failure_threshold = f,
      monitored_ips = [], callbacks = [], trace = []\<rparr>"

definition does :: "monitor_effect \<Rightarrow> PingMonitor \<Rightarrow> PingMonitor" where
  "does eff m = m\<lparr>trace := trace m @ [eff]\<rparr>"

subsection \<open>The registry\<close>

definition add_ip :: "string \<Rightarrow> string \<Rightarrow> PingMonitor \<Rightarrow> PingMonitor" where
  "add_ip a g m =
     (if a \<notin> set (map fst (monitored_ips m))
      then does (Log_added a g)
             (m\<lparr>monitored_ips :=
                  AList.update a
                    \<lparr>ip = a, is_online = False, response_time = 0,
                     last_success = None, last_failure = None,
                     consecutive_failures = 0, group = g\<rparr>
                    (monitored_ips m)\<rparr>)
      else m)"

definition remove_ip :: "string \<Rightarrow> PingMonitor \<Rightarrow> PingMonitor" where
  "remove_ip a m =
     (if a \<in> set (map fst (monitored_ips m))
      then does (Log_removed a) (m\<lparr>monitored_ips := AList.delete a (monitored_ips m)\<rparr>)
      else m)"

definition register_callback :: "callback \<Rightarrow> PingMonitor \<Rightarrow> PingMonitor" where
  "register_callback cb m = m\<lparr>callbacks := callbacks m @ [cb]\<rparr>"

definition get_status :: "string \<Rightarrow> PingMonitor \<Rightarrow> IPStatus option" where
  "get_status a m = map_of (monitored_ips m) a"

subsection \<open>\_ping\_ip\<close>

text \<open>\<^verbatim>\<open>for callback in self._callbacks: callback(ip, status)\<close>, from position \<open>i\<close> on.\<close>

fun notify_callbacks :: "nat \<Rightarrow> callback list \<Rightarrow> string \<Rightarrow> IPStatus \<Rightarrow> PingMonitor stmt" where
  "notify_callbacks i [] a st m = (Returned, m)"
| "notify_callbacks i (cb # cbs) a st m =
     seq (\<lambda>m. (cb a st, does (Callback_called i a st) m))
       (notify_callbacks (Suc i) cbs a st) m"

text \<open>
  The body of the \<^verbatim>\<open>try\<close>. \<open>r\<close> is what ping3 answers and \<open>now\<close> what
  \<^verbatim>\<open>datetime.now()\<close> reads. \<^verbatim>\<open>self.monitored_ips[ip]\<close> raises KeyError for an address
  that is not (or no longer) registered.
\<close>

definition ping_ip_body :: "ping_result \<Rightarrow> datetime \<Rightarrow> string \<Rightarrow> PingMonitor stmt" where
  "ping_ip_body r now a m =
     (let m0 = does (Ping_sent a (timeout m)) m in
      case r of
        Ping_raises e \<Rightarrow> (Raised e, m0)
      | Reply t \<Rightarrow>
          (case map_of (monitored_ips m0) a of
             None \<Rightarrow> (Raised (KeyError a), m0)
           | Some status \<Rightarrow>
               (let status' = status\<lparr>is_online := True, response_time := t * 1000,
                                     last_success := Some now, consecutive_failures := 0\<rparr>;
                    m1 = m0\<lparr>monitored_ips := AList.update a status' (monitored_ips m0)\<rparr>
                in notify_callbacks 0 (callbacks m1) a status' m1))
      | No_reply \<Rightarrow>
          (case map_of (monitored_ips m0) a of
             None \<Rightarrow> (Raised (KeyError a), m0)
           | Some status \<Rightarrow>
               (let status' = status\<lparr>is_online := False, response_time := 0,
                                     last_failure := Some now,
                                     consecutive_failures := consecutive_failures status + 1\<rparr>;
                    m1 = m0\<lparr>monitored_ips := AList.update a status' (monitored_ips m0)\<rparr>;
                    m2 = (if consecutive_failures status' \<ge> failure_threshold m1
                          then does (Log_failures a (consecutive_failures status')) m1
                          else m1)
                in notify_callbacks 0 (callbacks m2) a status' m2)))"

definition ping_ip :: "ping_result \<Rightarrow> datetime \<Rightarrow> string \<Rightarrow> PingMonitor stmt" where
  "ping_ip r now a =
     try_except (ping_ip_body r now a) (\<lambda>e m. (Returned, does (Log_ping_error a e) m))"

subsection \<open>\_monitor\_loop\<close>

text \<open>
  The stop event is set by another thread. What the worker meets when it reaches its
  \<open>k\<close>-th host of a cycle is given by the world: whether the event is set at that
  test, what ping3 answers, what the clock reads.
\<close>

record visit =
  stop_is_set :: bool
  ping_reply :: ping_result
  clock :: datetime

text \<open>The \<^verbatim>\<open>for\<close> loop of one cycle, over the snapshot of the keys.\<close>

fun for_each_ip :: "(nat \<Rightarrow> visit) \<Rightarrow> nat \<Rightarrow> string list \<Rightarrow> PingMonitor stmt" where
  "for_each_ip w k [] m = (Returned, m)"
| "for_each_ip w k (a # rest) m =
     (if stop_is_set (w k) then (Returned, m)
      else seq (ping_ip (ping_reply (w k)) (clock (w k)) a)
             (for_each_ip w (Suc k) rest) m)"

text \<open>
  The \<^verbatim>\<open>while\<close> loop runs until the event is seen set at the head of a cycle, which may
  never happen: the model takes fuel, and \<open>None\<close> is a loop that has not returned
  within it. \<open>stop_at c\<close> is the event at the head of cycle \<open>c\<close>; \<open>w c\<close> is the world
  during cycle \<open>c\<close>.
\<close>

fun monitor_loop ::
  "nat \<Rightarrow> (nat \<Rightarrow> bool) \<Rightarrow> (nat \<Rightarrow> nat \<Rightarrow> visit) \<Rightarrow> nat \<Rightarrow> PingMonitor
     \<Rightarrow> (completion \<times> PingMonitor) option" where
  "monitor_loop 0 stop_at w c m = None"
| "monitor_loop (Suc fuel) stop_at w c m =
     (if stop_at c then Some (Returned, m)
      else case for_each_ip (w c) 0 (map fst (monitored_ips m)) m of
             (Raised e, m') \<Rightarrow> Some (Raised e, m')
           | (Returned, m') \<Rightarrow>
               monitor_loop fuel stop_at w (Suc c) (does (Slept (interval m')) m'))"

subsection \<open>Runs of the monitor\<close>

text \<open>
  A run is a sequence of the calls that change the monitor, starting from a new one.
  A probe names the host, ping3's answer and the clock.
\<close>

datatype monitor_op =
    Add_ip string string
  | Remove_ip string
  | Register callback
  | Probe ping_result datetime string

fun run_op :: "monitor_op \<Rightarrow> PingMonitor \<Rightarrow> PingMonitor" where
  "run_op (Add_ip a g) m = add_ip a g m"
| "run_op (Remove_ip a) m = remove_ip a m"
| "run_op (Register cb) m = register_callback cb m"
| "run_op (Probe r now a) m = snd (ping_ip r now a m)"

definition run_ops :: "monitor_op list \<Rightarrow> PingMonitor \<Rightarrow> PingMonitor" where
  "run_ops ops m = fold run_op ops m"

definition nonneg_latency :: "monitor_op \<Rightarrow> bool" where
  "nonneg_latency x = (case x of Probe (Reply t) now a \<Rightarrow> 0 \<le> t | _ \<Rightarrow> True)"

text \<open>The invariant of a status record that the design document states.\<close>

definition status_inv :: "IPStatus \<Rightarrow> bool" where
  "status_inv st =
     ((is_online st \<longrightarrow> consecutive_failures st = 0 \<and> 0 \<le> response_time st) \<and>
      (\<not> is_online st \<longrightarrow> response_time st = 0) \<and>
      0 \<le> consecutive_failures st)"


text \<open>The callbacks that a trace shows were called, in the order of the calls.\<close>

fun called :: "monitor_effect list \<Rightarrow> (nat \<times> string \<times> IPStatus) list" where
  "called [] = []"
| "called (Callback_called i a st # es) = (i, a, st) # called es"
| "called (e # es) = called es"

text \<open>The hosts that a trace shows were probed, in order.\<close>

fun probed :: "monitor_effect list \<Rightarrow> string list" where
  "probed [] = []"
| "probed (Ping_sent a t # es) = a # probed es"
| "probed (e # es) = probed es"

text \<open>The channels that a trace of the alert manager shows were attempted, in order.\<close>

datatype channel = Desktop | Sound | Email

fun attempted :: "alert_effect list \<Rightarrow> channel list" where
  "attempted [] = []"
| "attempted (Desktop_notify a msg # es) = Desktop # attempted es"
| "attempted (Play_sound f # es) = Sound # attempted es"
| "attempted (Beep x y # es) = Sound # attempted es"
| "attempted (Smtp Connect # es) = Email # attempted es"
| "attempted (e # es) = attempted es"

text \<open>Every registered status satisfies the invariant.\<close>

definition all_inv :: "PingMonitor \<Rightarrow> bool" where
  "all_inv m = list_all (\<lambda>p. status_inv (snd p)) (monitored_ips m)"

section \<open>Example inputs\<close>

text \<open>The field defaults of the \<^verbatim>\<open>AlertConfig\<close> dataclass.\<close>

definition AlertConfig_default :: AlertConfig where
  "AlertConfig_default =
     \<lparr>email_enabled = False, email_smtp_server = [], email_smtp_port = 587,
      email_username = [], email_password = [], email_recipients = None,
      desktop_notification = True, sound_alert = True, sound_file = []\<rparr>"

text \<open>
  The scenario of the design document: the hosts 10.0.0.1 (group A) and 10.0.0.2
  (group B) on a monitor with failure threshold 3.
\<close>

definition scenario :: PingMonitor where
  "scenario = add_ip ''10.0.0.2'' ''B'' (add_ip ''10.0.0.1'' ''A'' (PingMonitor_init 1 5 3))"



text \<open>A world in which no stop is requested and ping3 raises.\<close>

definition broken_world :: "nat \<Rightarrow> visit" where
  "broken_world k =
     \<lparr>stop_is_set = False, ping_reply = Ping_raises (OtherException ''socket''), clock = 7\<rparr>"




section \<open>Properties of the alert manager\<close>

subsection \<open>The history query\<close>

lemma get_alert_history_positive:
  "1 \<le> limit \<Longrightarrow> get_alert_history m limit = recent_spec (nat limit) (alert_history m)"
  by (auto simp add: get_alert_history_def py_slice_from_def recent_spec_def Let_def max_def
      nat_diff_distrib')

text \<open>
  C6. The claim is that for every limit from 0 on \<^verbatim>\<open>get_alert_history(limit)\<close> gives the
  last \<open>limit\<close> records. For every limit from 1 on it does
  (\<open>get_alert_history_positive\<close>). At limit 0 the slice \<^verbatim>\<open>[-0:]\<close> starts at the
  beginning: on a history of two records the function gives both, where the last 0
  records are none.
\<close>

theorem get_alert_history_limit_zero_two_records:
  "get_alert_history
     \<lparr>config = c,
      alert_history = [[(''ip'', ''10.0.0.1'')], [(''ip'', ''10.0.0.2'')]],
      effects = []\<rparr> 0
     = [[(''ip'', ''10.0.0.1'')], [(''ip'', ''10.0.0.2'')]] \<and>
   recent_spec 0 [[(''ip'', ''10.0.0.1'')], [(''ip'', ''10.0.0.2'')]] = ([] :: alert_data list)"
  by (simp add: get_alert_history_def py_slice_from_def recent_spec_def)

text \<open>
  C10. For every history that is not empty, \<^verbatim>\<open>get_alert_history(0)\<close> gives the whole
  history, in order, and not the empty sequence.
\<close>

theorem get_alert_history_zero_whole:
  "alert_history m \<noteq> [] \<Longrightarrow>
     get_alert_history m 0 = alert_history m \<and> get_alert_history m 0 \<noteq> []"
  by (simp add: get_alert_history_def py_slice_from_def)

theorem get_alert_history_zero_whole_witness:
  "alert_history \<lparr>config = AlertConfig_default, alert_history = [[(''ip'', ''10.0.0.1'')]], effects = []\<rparr> \<noteq> [] \<and>
   get_alert_history \<lparr>config = AlertConfig_default, alert_history = [[(''ip'', ''10.0.0.1'')]], effects = []\<rparr> 0
     = [[(''ip'', ''10.0.0.1'')]]"
  using get_alert_history_zero_whole
    [of "\<lparr>config = AlertConfig_default, alert_history = [[(''ip'', ''10.0.0.1'')]], effects = []\<rparr>"]
  by simp

subsection \<open>send\_alert\<close>

lemma attempted_append: "attempted (xs @ ys) = attempted xs @ attempted ys"
  by (induction xs rule: attempted.induct) simp_all

text \<open>A guarded external call returns, whatever the call does.\<close>

lemma guarded_call:
  "try_except (call eff c) (\<lambda>e. logger (Log_error tag e)) m =
     (Returned, m\<lparr>effects := effects m @ [eff] @
        (case c of Returned \<Rightarrow> [] | Raised e \<Rightarrow> [Log_error tag e])\<rparr>)"
  by (cases c) (simp_all add: try_except_def call_def logger_def)

lemma send_email_alert_returns:
  "fst (send_email_alert env a message m) = Returned"
  by (simp add: send_email_alert_def try_except_def seq_def with_smtp_def call_def logger_def
      split: prod.splits completion.splits)

lemma send_email_alert_keeps:
  "config (snd (send_email_alert env a message m)) = config m \<and>
   alert_history (snd (send_email_alert env a message m)) = alert_history m"
  by (simp add: send_email_alert_def try_except_def seq_def with_smtp_def call_def logger_def
      split: prod.splits completion.splits)

lemma send_email_alert_attempted:
  "attempted (effects (snd (send_email_alert env a message m))) =
     attempted (effects m) @ [Email]"
  by (simp add: send_email_alert_def try_except_def seq_def with_smtp_def call_def logger_def
      attempted_append split: prod.splits completion.splits)

text \<open>
  C3. For every configuration and every behaviour of the external calls (each may
  raise), \<^verbatim>\<open>send_alert\<close> returns to its caller, the history is the old history with
  exactly one record appended, and the channels attempted are, in order, the desktop
  notification when its flag is set, the sound when its flag is set, and the email
  when its flag is set and there is a recipient. What a channel does has no part in
  which channels are attempted.
\<close>

theorem send_alert_isolates_channels:
  "fst (send_alert env a message alert_type m) = Returned \<and>
   alert_history (snd (send_alert env a message alert_type m)) =
     alert_history m @ [[(''timestamp'', now_isoformat env), (''ip'', a),
                         (''message'', message), (''type'', alert_type)]] \<and>
   attempted (effects (snd (send_alert env a message alert_type m))) =
     attempted (effects m) @
       (if desktop_notification (config m) then [Desktop] else []) @
       (if sound_alert (config m) then [Sound] else []) @
       (if email_enabled (config m) \<and> truthy (email_recipients (config m))
        then [Email] else [])"
proof -
  define m1 where "m1 = m\<lparr>alert_history := alert_history m @
     [[(''timestamp'', now_isoformat env), (''ip'', a), (''message'', message),
       (''type'', alert_type)]]\<rparr>"
  define d where "d =
     (case notify_outcome env of Returned \<Rightarrow> [] | Raised e \<Rightarrow> [Log_error ''desktop'' e])"
  define m2 where "m2 = (if desktop_notification (config m1)
       then m1\<lparr>effects := effects m1 @ [Desktop_notify a message] @ d\<rparr> else m1)"
  define snd_eff where "snd_eff =
     (if sound_file (config m2) \<noteq> [] \<and> path_exists env (sound_file (config m2))
      then [Play_sound (sound_file (config m2))] @
           (case play_sound_outcome env of
              Returned \<Rightarrow> [] | Raised e \<Rightarrow> [Log_error ''sound'' e])
      else [Beep 1000 1000] @
           (case beep_outcome env of Returned \<Rightarrow> [] | Raised e \<Rightarrow> [Log_error ''sound'' e]))"
  define m3 where "m3 =
     (if sound_alert (config m2) then m2\<lparr>effects := effects m2 @ snd_eff\<rparr> else m2)"
  define m4 where "m4 =
     (if email_enabled (config m3) \<and> truthy (email_recipients (config m3))
      then snd (send_email_alert env a message m3) else m3)"
  have s1: "(Returned, m\<lparr>alert_history := alert_history m @
     [[(''timestamp'', now_isoformat env), (''ip'', a), (''message'', message),
       (''type'', alert_type)]]\<rparr>) = (Returned, m1)"
    by (simp add: m1_def)
  have s2: "(if desktop_notification (config m1)
             then try_except (call (Desktop_notify a message) (notify_outcome env))
                    (\<lambda>e. logger (Log_error ''desktop'' e)) m1
             else skip m1) = (Returned, m2)"
    by (simp add: m2_def d_def guarded_call skip_def)
  have s3: "(if sound_alert (config m2)
             then try_except
                    (if sound_file (config m2) \<noteq> [] \<and> path_exists env (sound_file (config m2))
                     then call (Play_sound (sound_file (config m2))) (play_sound_outcome env)
                     else call (Beep 1000 1000) (beep_outcome env))
                    (\<lambda>e. logger (Log_error ''sound'' e)) m2
             else skip m2) = (Returned, m3)"
    by (simp add: m3_def snd_eff_def guarded_call skip_def)
  have s4: "(if email_enabled (config m3) \<and> truthy (email_recipients (config m3))
             then send_email_alert env a message m3
             else skip m3) = (Returned, m4)"
    using send_email_alert_returns [of env a message m3]
    by (cases "send_email_alert env a message m3") (simp add: m4_def skip_def)
  have r: "send_alert env a message alert_type m = (Returned, m4)"
    unfolding send_alert_def seq_def
    by (simp only: s1 s2 s3 s4 prod.case completion.case)
  have c: "config m1 = config m" "config m2 = config m" "config m3 = config m"
    by (simp_all add: m1_def m2_def m3_def)
  have h: "alert_history m4 = alert_history m1"
    by (simp add: m4_def m3_def m2_def send_email_alert_keeps)
  have a1: "attempted (effects m2) =
      attempted (effects m) @ (if desktop_notification (config m) then [Desktop] else [])"
    by (cases "notify_outcome env") (simp_all add: m2_def m1_def d_def attempted_append)
  have a2: "attempted snd_eff = [Sound]"
    by (simp add: snd_eff_def attempted_append split: completion.splits)
  have a3: "attempted (effects m3) =
      attempted (effects m2) @ (if sound_alert (config m) then [Sound] else [])"
    by (simp add: m3_def c attempted_append a2)
  have a4: "attempted (effects m4) = attempted (effects m3) @
      (if email_enabled (config m) \<and> truthy (email_recipients (config m))
       then [Email] else [])"
    by (simp add: m4_def c send_email_alert_attempted)
  show ?thesis
    using r h a1 a3 a4 by (simp add: m1_def)
qed

subsection \<open>Saving and loading the history\<close>



text \<open>Neither function raises, and a failed save leaves the history in memory as it was.\<close>

lemma persistence_returns:
  "fst (save_alert_history js filepath s) = Returned \<and>
   fst (load_alert_history js filepath s) = Returned"
  by (simp add: save_alert_history_def load_alert_history_def try_except_def
      manager_does_def logger_def call_def split: prod.splits completion.splits)

lemma save_keeps_history:
  "alert_history (fst (snd (save_alert_history js filepath (m, fs)))) = alert_history m"
  by (simp add: save_alert_history_def try_except_def seq_def open_w_def dump_history_def
      manager_does_def logger_def call_def split: prod.splits completion.splits)




section \<open>Properties of the monitor\<close>

subsection \<open>Traces and callbacks\<close>

lemma does_simps:
  "monitored_ips (does eff m) = monitored_ips m"
  "callbacks (does eff m) = callbacks m"
  "timeout (does eff m) = timeout m"
  "interval (does eff m) = interval m"
  "failure_threshold (does eff m) = failure_threshold m"
  "trace (does eff m) = trace m @ [eff]"
  by (simp_all add: does_def)

lemma called_append: "called (xs @ ys) = called xs @ called ys"
  by (induction xs rule: called.induct) simp_all

lemma probed_append: "probed (xs @ ys) = probed xs @ probed ys"
  by (induction xs rule: probed.induct) simp_all

lemma notify_callbacks_keeps:
  "monitored_ips (snd (notify_callbacks i cbs a st m)) = monitored_ips m \<and>
   callbacks (snd (notify_callbacks i cbs a st m)) = callbacks m \<and>
   timeout (snd (notify_callbacks i cbs a st m)) = timeout m \<and>
   interval (snd (notify_callbacks i cbs a st m)) = interval m \<and>
   failure_threshold (snd (notify_callbacks i cbs a st m)) = failure_threshold m"
proof (induction cbs arbitrary: i m)
  case Nil
  then show ?case by simp
next
  case (Cons cb cbs)
  show ?case
    by (cases "cb a st") (simp_all add: seq_def does_simps Cons.IH)
qed


subsection \<open>One probe\<close>

lemma ping_ip_returns: "fst (ping_ip r now a m) = Returned"
  by (simp add: ping_ip_def try_except_def split: prod.splits completion.splits)

lemma ping_ip_logged:
  "monitored_ips (snd (ping_ip r now a m)) = monitored_ips (snd (ping_ip_body r now a m)) \<and>
   callbacks (snd (ping_ip r now a m)) = callbacks (snd (ping_ip_body r now a m)) \<and>
   called (trace (snd (ping_ip r now a m))) = called (trace (snd (ping_ip_body r now a m)))"
  by (simp add: ping_ip_def try_except_def does_simps called_append
      split: prod.splits completion.splits)

lemma ping_ip_body_No_reply:
  assumes "get_status a m = Some st"
  shows "monitored_ips (snd (ping_ip_body No_reply now a m)) =
           AList.update a
             (st\<lparr>is_online := False, response_time := 0, last_failure := Some now,
                 consecutive_failures := consecutive_failures st + 1\<rparr>)
             (monitored_ips m)"
  using assms
  by (simp add: ping_ip_body_def get_status_def Let_def does_simps notify_callbacks_keeps)

lemma ping_ip_body_Reply:
  assumes "get_status a m = Some st"
  shows "monitored_ips (snd (ping_ip_body (Reply t) now a m)) =
           AList.update a
             (st\<lparr>is_online := True, response_time := t * 1000, last_success := Some now,
                 consecutive_failures := 0\<rparr>)
             (monitored_ips m)"
  using assms
  by (simp add: ping_ip_body_def get_status_def Let_def does_simps notify_callbacks_keeps)

lemma ping_ip_body_unregistered:
  assumes "get_status a m = None"
  shows "monitored_ips (snd (ping_ip_body r now a m)) = monitored_ips m"
  using assms
  by (cases r) (simp_all add: ping_ip_body_def get_status_def Let_def does_simps)

lemma ping_ip_Ping_raises:
  "ping_ip (Ping_raises e) now a m =
     (Returned, does (Log_ping_error a e) (does (Ping_sent a (timeout m)) m))"
  by (simp add: ping_ip_def ping_ip_body_def try_except_def Let_def)




text \<open>The \<^verbatim>\<open>for\<close> loop of a cycle returns, and a stop seen at a host ends the cycle there.\<close>

lemma for_each_ip_returns: "fst (for_each_ip w k ips m) = Returned"
proof (induction ips arbitrary: k m)
  case Nil
  then show ?case by simp
next
  case (Cons a ips)
  show ?case
    using ping_ip_returns [of "ping_reply (w k)" "clock (w k)" a m]
    by (cases "ping_ip (ping_reply (w k)) (clock (w k)) a m") (simp add: seq_def Cons.IH)
qed

lemma for_each_ip_stop: "stop_is_set (w k) \<Longrightarrow> for_each_ip w k ips m = (Returned, m)"
  by (cases ips) simp_all

subsection \<open>Observers\<close>





subsection \<open>Probe errors\<close>

text \<open>
  C8. When ping3 raises for a host, \<^verbatim>\<open>_ping_ip\<close> returns, the error is logged, no
  status record of the registry changes (so no failure is counted), no callback is
  called, and the cycle goes on with the next host.
\<close>

theorem probe_error_leaves_status:
  assumes "\<not> stop_is_set (w k)" and "ping_reply (w k) = Ping_raises e"
  shows "fst (ping_ip (ping_reply (w k)) (clock (w k)) a m) = Returned \<and>
         monitored_ips (snd (ping_ip (ping_reply (w k)) (clock (w k)) a m)) = monitored_ips m \<and>
         trace (snd (ping_ip (ping_reply (w k)) (clock (w k)) a m)) =
           trace m @ [Ping_sent a (timeout m), Log_ping_error a e] \<and>
         for_each_ip w k (a # rest) m =
           for_each_ip w (Suc k) rest (snd (ping_ip (ping_reply (w k)) (clock (w k)) a m))"
  using assms by (simp add: ping_ip_Ping_raises does_def seq_def)

theorem probe_error_leaves_status_witness:
  "\<not> stop_is_set (broken_world 0) \<and>
   ping_reply (broken_world 0) = Ping_raises (OtherException ''socket'') \<and>
   monitored_ips (snd (ping_ip (ping_reply (broken_world 0)) (clock (broken_world 0))
      ''10.0.0.1'' scenario)) = monitored_ips scenario \<and>
   trace (snd (ping_ip (ping_reply (broken_world 0)) (clock (broken_world 0))
      ''10.0.0.1'' scenario)) =
     trace scenario @
       [Ping_sent ''10.0.0.1'' (timeout scenario),
        Log_ping_error ''10.0.0.1'' (OtherException ''socket'')] \<and>
   for_each_ip broken_world 0 [''10.0.0.1'', ''10.0.0.2''] scenario =
     for_each_ip broken_world (Suc 0) [''10.0.0.2'']
       (snd (ping_ip (ping_reply (broken_world 0)) (clock (broken_world 0)) ''10.0.0.1''
          scenario))"
proof -
  have h1: "\<not> stop_is_set (broken_world 0)"
    by (simp add: broken_world_def)
  have h2: "ping_reply (broken_world 0) = Ping_raises (OtherException ''socket'')"
    by (simp add: broken_world_def)
  show ?thesis
    using h1 h2
      probe_error_leaves_status
        [where w = broken_world and k = 0 and a = "''10.0.0.1''" and m = scenario
           and rest = "[''10.0.0.2'']", OF h1 h2]
    by blast
qed


subsection \<open>Consecutive failures\<close>





subsection \<open>The invariant of the status records\<close>

lemma set_update_subset: "set (AList.update k v al) \<subseteq> insert (k, v) (set al)"
  by (induction al) auto

lemma set_delete_subset: "set (AList.delete k al) \<subseteq> set al"
  by (auto simp add: AList.delete_eq)

lemma all_inv_update:
  assumes "all_inv m" and "status_inv st"
  shows "list_all (\<lambda>p. status_inv (snd p)) (AList.update a st (monitored_ips m))"
  using assms set_update_subset [of a st "monitored_ips m"]
  by (auto simp add: all_inv_def list_all_iff)

lemma all_inv_add_ip: "all_inv m \<Longrightarrow> all_inv (add_ip a g m)"
  unfolding add_ip_def
  using all_inv_update [of m "\<lparr>ip = a, is_online = False, response_time = 0,
      last_success = None, last_failure = None, consecutive_failures = 0, group = g\<rparr>" a]
  by (simp add: all_inv_def does_simps status_inv_def)

lemma all_inv_remove_ip: "all_inv m \<Longrightarrow> all_inv (remove_ip a m)"
  using set_delete_subset [of a "monitored_ips m"]
  by (auto simp add: remove_ip_def all_inv_def does_simps list_all_iff)

lemma all_inv_register: "all_inv m \<Longrightarrow> all_inv (register_callback cb m)"
  by (simp add: register_callback_def all_inv_def)

lemma all_inv_ping_ip:
  assumes "all_inv m" and "nonneg_latency (Probe r now a)"
  shows "all_inv (snd (ping_ip r now a m))"
proof (cases "get_status a m")
  case None
  then show ?thesis
    using assms(1) by (simp add: all_inv_def ping_ip_logged ping_ip_body_unregistered)
next
  case (Some st)
  then have "(a, st) \<in> set (monitored_ips m)"
    by (simp add: get_status_def map_of_SomeD)
  with assms(1) have st: "status_inv st"
    by (auto simp add: all_inv_def list_all_iff)
  show ?thesis
  proof (cases r)
    case (Reply t)
    with assms(2) have "0 \<le> t" by (simp add: nonneg_latency_def)
    then have "status_inv (st\<lparr>is_online := True, response_time := t * 1000,
        last_success := Some now, consecutive_failures := 0\<rparr>)"
      by (simp add: status_inv_def)
    from all_inv_update [OF assms(1) this] show ?thesis
      by (simp add: all_inv_def ping_ip_logged ping_ip_body_Reply [OF Some] Reply)
  next
    case No_reply
    from st have "status_inv (st\<lparr>is_online := False, response_time := 0,
        last_failure := Some now, consecutive_failures := consecutive_failures st + 1\<rparr>)"
      by (simp add: status_inv_def)
    from all_inv_update [OF assms(1) this] show ?thesis
      by (simp add: all_inv_def ping_ip_logged ping_ip_body_No_reply [OF Some] No_reply)
  next
    case (Ping_raises e)
    then show ?thesis
      using assms(1) by (simp add: all_inv_def ping_ip_Ping_raises does_simps)
  qed
qed

lemma all_inv_run_op: "all_inv m \<Longrightarrow> nonneg_latency x \<Longrightarrow> all_inv (run_op x m)"
  by (cases x) (simp_all add: all_inv_add_ip all_inv_remove_ip all_inv_register all_inv_ping_ip)

lemma all_inv_run_ops: "all_inv m \<Longrightarrow> list_all nonneg_latency ops \<Longrightarrow> all_inv (run_ops ops m)"
  unfolding run_ops_def
  by (induction ops arbitrary: m) (simp_all add: all_inv_run_op)

text \<open>
  C4. Start from a new monitor and run any sequence of \<^verbatim>\<open>add_ip\<close>, \<^verbatim>\<open>remove_ip\<close>,
  \<^verbatim>\<open>register_callback\<close> and probes whose latencies are not negative. Every status in
  the registry then satisfies: online implies no consecutive failures and a response
  time that is not negative; offline implies response time 0; the failure count is
  never negative.
\<close>

theorem reachable_status_inv:
  assumes "list_all nonneg_latency ops"
    and "get_status a (run_ops ops (PingMonitor_init t i f)) = Some st"
  shows "(is_online st \<longrightarrow> consecutive_failures st = 0 \<and> 0 \<le> response_time st) \<and>
         (\<not> is_online st \<longrightarrow> response_time st = 0) \<and>
         0 \<le> consecutive_failures st"
proof -
  have "all_inv (PingMonitor_init t i f)"
    by (simp add: all_inv_def PingMonitor_init_def)
  then have "all_inv (run_ops ops (PingMonitor_init t i f))"
    using assms(1) by (rule all_inv_run_ops)
  moreover have "(a, st) \<in> set (monitored_ips (run_ops ops (PingMonitor_init t i f)))"
    using assms(2) by (simp add: get_status_def map_of_SomeD)
  ultimately have "status_inv st"
    by (auto simp add: all_inv_def list_all_iff)
  then show ?thesis
    by (simp add: status_inv_def)
qed

lemma example_run:
  "get_status ''10.0.0.1''
     (run_ops [Add_ip ''10.0.0.1'' ''A'', Probe No_reply 1 ''10.0.0.1'',
               Probe (Reply (1 / 50)) 2 ''10.0.0.1'']
        (PingMonitor_init 1 5 3)) =
   Some \<lparr>ip = ''10.0.0.1'', is_online = True, response_time = 20, last_success = Some 2,
         last_failure = Some 1, consecutive_failures = 0, group = ''A''\<rparr>"
  by (simp add: run_ops_def add_ip_def PingMonitor_init_def does_def get_status_def
      ping_ip_def ping_ip_body_def try_except_def Let_def)

lemma example_run_offline:
  "get_status ''10.0.0.1''
     (run_ops [Add_ip ''10.0.0.1'' ''A'', Probe (Reply (1 / 50)) 1 ''10.0.0.1'',
               Probe No_reply 2 ''10.0.0.1'']
        (PingMonitor_init 1 5 3)) =
   Some \<lparr>ip = ''10.0.0.1'', is_online = False, response_time = 0, last_success = Some 1,
         last_failure = Some 2, consecutive_failures = 1, group = ''A''\<rparr>"
  by (simp add: run_ops_def add_ip_def PingMonitor_init_def does_def get_status_def
      ping_ip_def ping_ip_body_def try_except_def Let_def)

theorem reachable_status_inv_witness:
  "list_all nonneg_latency
     [Add_ip ''10.0.0.1'' ''A'', Probe No_reply 1 ''10.0.0.1'',
      Probe (Reply (1 / 50)) 2 ''10.0.0.1''] \<and>
   get_status ''10.0.0.1''
     (run_ops [Add_ip ''10.0.0.1'' ''A'', Probe No_reply 1 ''10.0.0.1'',
               Probe (Reply (1 / 50)) 2 ''10.0.0.1'']
        (PingMonitor_init 1 5 3)) =
   Some \<lparr>ip = ''10.0.0.1'', is_online = True, response_time = 20, last_success = Some 2,
         last_failure = Some 1, consecutive_failures = 0, group = ''A''\<rparr> \<and>
   consecutive_failures
     \<lparr>ip = ''10.0.0.1'', is_online = True, response_time = 20, last_success = Some 2,
      last_failure = Some 1, consecutive_failures = 0, group = ''A''\<rparr> = 0 \<and>
   0 \<le> response_time
     \<lparr>ip = ''10.0.0.1'', is_online = True, response_time = 20, last_success = Some 2,
      last_failure = Some 1, consecutive_failures = 0, group = ''A''\<rparr> \<and>
   list_all nonneg_latency
     [Add_ip ''10.0.0.1'' ''A'', Probe (Reply (1 / 50)) 1 ''10.0.0.1'',
      Probe No_reply 2 ''10.0.0.1''] \<and>
   get_status ''10.0.0.1''
     (run_ops [Add_ip ''10.0.0.1'' ''A'', Probe (Reply (1 / 50)) 1 ''10.0.0.1'',
               Probe No_reply 2 ''10.0.0.1'']
        (PingMonitor_init 1 5 3)) =
   Some \<lparr>ip = ''10.0.0.1'', is_online = False, response_time = 0, last_success = Some 1,
         last_failure = Some 2, consecutive_failures = 1, group = ''A''\<rparr> \<and>
   response_time
     \<lparr>ip = ''10.0.0.1'', is_online = False, response_time = 0, last_success = Some 1,
      last_failure = Some 2, consecutive_failures = 1, group = ''A''\<rparr> = 0 \<and>
   0 \<le> consecutive_failures
     \<lparr>ip = ''10.0.0.1'', is_online = False, response_time = 0, last_success = Some 1,
      last_failure = Some 2, consecutive_failures = 1, group = ''A''\<rparr>"
proof -
  have h1: "list_all nonneg_latency
     [Add_ip ''10.0.0.1'' ''A'', Probe No_reply 1 ''10.0.0.1'',
      Probe (Reply (1 / 50)) 2 ''10.0.0.1'']"
    by (simp add: nonneg_latency_def)
  have h2: "get_status ''10.0.0.1''
     (run_ops [Add_ip ''10.0.0.1'' ''A'', Probe No_reply 1 ''10.0.0.1'',
               Probe (Reply (1 / 50)) 2 ''10.0.0.1'']
        (PingMonitor_init 1 5 3)) =
     Some \<lparr>ip = ''10.0.0.1'', is_online = True, response_time = 20, last_success = Some 2,
           last_failure = Some 1, consecutive_failures = 0, group = ''A''\<rparr>"
    by (rule example_run)
  have h3: "list_all nonneg_latency
     [Add_ip ''10.0.0.1'' ''A'', Probe (Reply (1 / 50)) 1 ''10.0.0.1'',
      Probe No_reply 2 ''10.0.0.1'']"
    by (simp add: nonneg_latency_def)
  have h4: "get_status ''10.0.0.1''
     (run_ops [Add_ip ''10.0.0.1'' ''A'', Probe (Reply (1 / 50)) 1 ''10.0.0.1'',
               Probe No_reply 2 ''10.0.0.1'']
        (PingMonitor_init 1 5 3)) =
     Some \<lparr>ip = ''10.0.0.1'', is_online = False, response_time = 0, last_success = Some 1,
           last_failure = Some 2, consecutive_failures = 1, group = ''A''\<rparr>"
    by (rule example_run_offline)
  show ?thesis
    using h1 h2 h3 h4 reachable_status_inv [OF h1 h2] reachable_status_inv [OF h3 h4]
    by simp
qed

subsection \<open>Adding a host twice\<close>

lemma one_entry:
  assumes "distinct (map fst al)" and "a \<in> set (map fst al)"
  shows "length (filter (\<lambda>p. fst p = a) al) = 1"
  using assms
proof (induction al)
  case Nil
  then show ?case by simp
next
  case (Cons p al)
  show ?case
  proof (cases "fst p = a")
    case True
    with Cons.prems have "a \<notin> fst ` set al" by auto
    then have "filter (\<lambda>p. fst p = a) al = []"
      by (auto simp add: filter_empty_conv)
    with True show ?thesis by simp
  next
    case False
    with Cons show ?thesis by auto
  qed
qed

lemma add_ip_present: "a \<in> set (map fst (monitored_ips m)) \<Longrightarrow> add_ip a g m = m"
  by (simp add: add_ip_def)

lemma add_ip_keys: "a \<in> set (map fst (monitored_ips (add_ip a g m)))"
  by (simp add: add_ip_def does_simps dom_update)

lemma add_ip_distinct:
  "distinct (map fst (monitored_ips m)) \<Longrightarrow> distinct (map fst (monitored_ips (add_ip a g m)))"
  by (simp add: add_ip_def does_simps distinct_update)

text \<open>
  C7. On a registry whose keys are distinct (a dict), adding an address twice, with any
  two groups, leaves exactly one entry for it, and the second call changes nothing. For
  an address that was absent, the entry is the new status: offline, no failures,
  response time 0, no timestamps, the group of the first call. For an address that was
  present, \<^verbatim>\<open>add_ip\<close> changes nothing.
\<close>

theorem add_ip_idempotent:
  assumes "distinct (map fst (monitored_ips m))"
  shows "length (filter (\<lambda>p. fst p = a) (monitored_ips (add_ip a g2 (add_ip a g1 m)))) = 1 \<and>
         add_ip a g2 (add_ip a g1 m) = add_ip a g1 m \<and>
         (a \<notin> set (map fst (monitored_ips m)) \<longrightarrow>
            get_status a (add_ip a g1 m) =
              Some \<lparr>ip = a, is_online = False, response_time = 0, last_success = None,
                    last_failure = None, consecutive_failures = 0, group = g1\<rparr>) \<and>
         (a \<in> set (map fst (monitored_ips m)) \<longrightarrow> add_ip a g1 m = m)"
proof -
  have 1: "add_ip a g2 (add_ip a g1 m) = add_ip a g1 m"
    by (rule add_ip_present [OF add_ip_keys])
  have 2: "length (filter (\<lambda>p. fst p = a) (monitored_ips (add_ip a g1 m))) = 1"
    by (rule one_entry [OF add_ip_distinct [OF assms] add_ip_keys])
  have 3: "a \<notin> set (map fst (monitored_ips m)) \<longrightarrow>
            get_status a (add_ip a g1 m) =
              Some \<lparr>ip = a, is_online = False, response_time = 0, last_success = None,
                    last_failure = None, consecutive_failures = 0, group = g1\<rparr>"
    by (simp add: add_ip_def get_status_def does_simps update_conv')
  show ?thesis
    using 1 2 3 by (simp add: add_ip_present)
qed

lemma scenario_keys:
  "map fst (monitored_ips scenario) = [''10.0.0.1'', ''10.0.0.2'']"
  by (simp add: scenario_def add_ip_def PingMonitor_init_def does_def)

theorem add_ip_idempotent_witness:
  "distinct (map fst (monitored_ips scenario)) \<and>
   ''10.0.0.3'' \<notin> set (map fst (monitored_ips scenario)) \<and>
   ''10.0.0.1'' \<in> set (map fst (monitored_ips scenario)) \<and>
   length (filter (\<lambda>p. fst p = ''10.0.0.3'')
     (monitored_ips (add_ip ''10.0.0.3'' ''B'' (add_ip ''10.0.0.3'' ''A'' scenario)))) = 1 \<and>
   add_ip ''10.0.0.3'' ''B'' (add_ip ''10.0.0.3'' ''A'' scenario) =
     add_ip ''10.0.0.3'' ''A'' scenario \<and>
   get_status ''10.0.0.3'' (add_ip ''10.0.0.3'' ''A'' scenario) =
     Some \<lparr>ip = ''10.0.0.3'', is_online = False, response_time = 0, last_success = None,
           last_failure = None, consecutive_failures = 0, group = ''A''\<rparr> \<and>
   add_ip ''10.0.0.1'' ''C'' scenario = scenario"
proof -
  have h: "distinct (map fst (monitored_ips scenario))"
    by (simp add: scenario_keys)
  have n: "''10.0.0.3'' \<notin> set (map fst (monitored_ips scenario))"
    by (simp add: scenario_keys)
  have y: "''10.0.0.1'' \<in> set (map fst (monitored_ips scenario))"
    by (simp add: scenario_keys)
  show ?thesis
    using h n y
      add_ip_idempotent [OF h, of "''10.0.0.3''" "''B''" "''A''"]
      add_ip_idempotent [OF h, of "''10.0.0.1''" "''C''" "''C''"]
    by blast
qed

subsection \<open>Probes and the rest of the registry\<close>

text \<open>A probe keeps the keys of the registry and the status of every other host.\<close>

lemma ping_ip_keys:
  "map fst (monitored_ips (snd (ping_ip r now a m))) = map fst (monitored_ips m)"
proof (cases "get_status a m")
  case None
  then show ?thesis
    by (simp add: ping_ip_logged ping_ip_body_unregistered)
next
  case (Some st)
  then have k: "a \<in> fst ` set (monitored_ips m)"
    by (auto simp add: get_status_def dest: map_of_SomeD intro: rev_image_eqI)
  show ?thesis
  proof (cases r)
    case (Reply t)
    with k show ?thesis
      by (simp add: ping_ip_logged ping_ip_body_Reply [OF Some] update_keys)
  next
    case No_reply
    with k show ?thesis
      by (simp add: ping_ip_logged ping_ip_body_No_reply [OF Some] update_keys)
  next
    case (Ping_raises e)
    then show ?thesis
      by (simp add: ping_ip_Ping_raises does_simps)
  qed
qed

lemma ping_ip_other_host:
  assumes "b \<noteq> a"
  shows "get_status b (snd (ping_ip r now a m)) = get_status b m"
proof (cases "get_status a m")
  case None
  then show ?thesis
    by (simp add: get_status_def ping_ip_logged ping_ip_body_unregistered)
next
  case (Some st)
  show ?thesis
  proof (cases r)
    case (Reply t)
    with assms show ?thesis
      by (simp add: get_status_def ping_ip_logged ping_ip_body_Reply [OF Some] update_conv')
  next
    case No_reply
    with assms show ?thesis
      by (simp add: get_status_def ping_ip_logged ping_ip_body_No_reply [OF Some] update_conv')
  next
    case (Ping_raises e)
    then show ?thesis
      by (simp add: get_status_def ping_ip_Ping_raises does_simps)
  qed
qed

text \<open>The registry of a run has distinct keys: it is a dict.\<close>

lemma run_op_distinct:
  "distinct (map fst (monitored_ips m)) \<Longrightarrow> distinct (map fst (monitored_ips (run_op x m)))"
  by (cases x)
    (simp_all add: add_ip_distinct remove_ip_def does_simps distinct_delete
      register_callback_def ping_ip_keys)

lemma run_ops_distinct:
  "distinct (map fst (monitored_ips (run_ops ops (PingMonitor_init t i f))))"
proof -
  have "distinct (map fst (monitored_ips m)) \<Longrightarrow>
        distinct (map fst (monitored_ips (fold run_op ops m)))" for m
    by (induction ops arbitrary: m) (simp_all add: run_op_distinct)
  then show ?thesis
    by (simp add: run_ops_def PingMonitor_init_def)
qed

subsection \<open>A whole cycle\<close>

text \<open>
  With no stop request, a cycle probes every host of its snapshot, in order, whatever
  ping3 and the callbacks do.
\<close>

lemma notify_callbacks_probed:
  "probed (trace (snd (notify_callbacks i cbs a st m))) = probed (trace m)"
proof (induction cbs arbitrary: i m)
  case Nil
  then show ?case by simp
next
  case (Cons cb cbs)
  show ?case
    by (cases "cb a st") (simp_all add: seq_def does_simps Cons.IH probed_append)
qed

lemma ping_ip_body_probed:
  "probed (trace (snd (ping_ip_body r now a m))) = probed (trace m) @ [a]"
  by (cases r)
    (simp_all add: ping_ip_body_def Let_def does_simps notify_callbacks_probed probed_append
      split: option.splits)

lemma ping_ip_probed: "probed (trace (snd (ping_ip r now a m))) = probed (trace m) @ [a]"
proof (cases "ping_ip_body r now a m")
  case (Pair c m1)
  with ping_ip_body_probed [of r now a m] have "probed (trace m1) = probed (trace m) @ [a]"
    by simp
  with Pair show ?thesis
    by (cases c) (simp_all add: ping_ip_def try_except_def does_simps probed_append)
qed

lemma cycle_probes_every_host:
  assumes "\<And>j. \<not> stop_is_set (w j)"
  shows "probed (trace (snd (for_each_ip w k ips m))) = probed (trace m) @ ips"
proof (induction ips arbitrary: k m)
  case Nil
  then show ?case by simp
next
  case (Cons a ips)
  let ?p = "ping_ip (ping_reply (w k)) (clock (w k)) a m"
  have "for_each_ip w k (a # ips) m = for_each_ip w (Suc k) ips (snd ?p)"
    using assms [of k] ping_ip_returns [of "ping_reply (w k)" "clock (w k)" a m]
    by (cases ?p) (simp add: seq_def)
  then show ?case
    by (simp add: Cons.IH ping_ip_probed)
qed

text \<open>
  The loop never raises, and it returns at the first cycle whose head sees the stop
  event.
\<close>

lemma monitor_loop_never_raises:
  "monitor_loop fuel stop_at w c m = Some (r, m') \<Longrightarrow> r = Returned"
proof (induction fuel arbitrary: c m)
  case 0
  then show ?case by simp
next
  case (Suc fuel)
  show ?case
  proof (cases "stop_at c")
    case True
    with Suc.prems show ?thesis by simp
  next
    case False
    obtain r1 m1 where f: "for_each_ip (w c) 0 (map fst (monitored_ips m)) m = (r1, m1)"
      by (cases "for_each_ip (w c) 0 (map fst (monitored_ips m)) m")
    with for_each_ip_returns [of "w c" 0 "map fst (monitored_ips m)" m]
    have "r1 = Returned" by simp
    with Suc.prems False f
    have "monitor_loop fuel stop_at w (Suc c) (does (Slept (interval m1)) m1) = Some (r, m')"
      by simp
    then show ?thesis
      by (rule Suc.IH)
  qed
qed

lemma monitor_loop_stops:
  "stop_at c \<Longrightarrow> monitor_loop (Suc fuel) stop_at w c m = Some (Returned, m)"
  by simp

end
